theory Spec2Isabelle
  imports Complex_Main
begin

section \<open>Values of the decoded messages\<close>

text \<open>
  A JavaScript \<open>number\<close> is a double. \<open>Math.min\<close> and \<open>Math.max\<close> do not round, so on
  the finite doubles they are the minimum and maximum of the reals; the one value that
  behaves differently is \<open>NaN\<close>, which they propagate. The infinities and the sign of
  zero are outside this model.
\<close>

datatype jsnum = NaN | Num real

text \<open>
  \<open>LineData\<close> as \<open>PlotComponent\<close> uses it: \<open>...multilineData[i].x\<close> spreads the samples
  as numbers, so \<open>x\<close> and \<open>y\<close> are number arrays. The fields \<open>x\<close> and \<open>y\<close> are named
  \<open>line_x\<close> and \<open>line_y\<close> here.
\<close>

record LineData =
  key :: string
  color :: "string option"
  line_x :: "jsnum list"
  line_y :: "jsnum list"
  line_on :: bool
  point_size :: "jsnum option"

text \<open>
  \<open>decode(event.data)\<close> returns whatever the producer packed; the casts
  \<open>as MultiDataMessage\<close> and \<open>as LineDataMessage\<close> check nothing at run time. A decoded
  value is therefore \<open>undefined\<close>, a string, a line object or an array of values, and a
  decoded message is an object read by property name, where a missing property reads
  as \<open>undefined\<close>.
\<close>

datatype jsvalue = Undefined | Str string | Line LineData | Array "jsvalue list"

type_synonym message = "string \<Rightarrow> jsvalue"

datatype error = TypeError | RangeError | InvalidStateError

text \<open>How a handler ends: it returns, or an exception leaves it.\<close>

datatype completion = Normal | Throw error

section \<open>Axis domains\<close>

fun js_min :: "jsnum \<Rightarrow> jsnum \<Rightarrow> jsnum" where
  "js_min (Num a) (Num b) = Num (min a b)"
| "js_min _ _ = NaN"

fun js_max :: "jsnum \<Rightarrow> jsnum \<Rightarrow> jsnum" where
  "js_max (Num a) (Num b) = Num (max a b)"
| "js_max _ _ = NaN"

text \<open>
  \<open>Math_min max_args vs m\<close> is \<open>Math.min(...vs, m)\<close>, and \<open>Math_max max_args vs m\<close> is
  \<open>Math.max(...vs, m)\<close>. The spread passes every sample as an argument of the call, and
  an engine accepts only so many arguments in one call: beyond that the call throws a
  \<open>RangeError\<close>. The largest number of arguments accepted differs between engines
  and is the parameter \<open>max_args\<close> of everything that computes a domain.
\<close>

definition Math_min :: "nat \<Rightarrow> jsnum list \<Rightarrow> jsnum \<Rightarrow> error + jsnum" where
  "Math_min max_args vs m =
     (if max_args < length vs + 1 then Inl RangeError else Inr (fold js_min vs m))"

definition Math_max :: "nat \<Rightarrow> jsnum list \<Rightarrow> jsnum \<Rightarrow> error + jsnum" where
  "Math_max max_args vs m =
     (if max_args < length vs + 1 then Inl RangeError else Inr (fold js_max vs m))"

text \<open>
  \<open>a[0]\<close> of an empty array is \<open>undefined\<close>, which \<open>Math.min\<close> and \<open>Math.max\<close> convert
  to \<open>NaN\<close>. The loops below run at least once whenever the seed is read, so the seed
  always passes through that conversion.
\<close>

definition first_sample :: "jsnum list \<Rightarrow> jsnum" where
  "first_sample vs = (case vs of [] \<Rightarrow> NaN | v # _ \<Rightarrow> v)"

text \<open>
  The \<open>for\<close> loop of \<open>calculateMultiXDomain\<close> over the elements from index \<open>i\<close> on.
  Reading \<open>.x\<close> of an element that is not a line object gives \<open>undefined\<close> (or throws, on
  \<open>undefined\<close> itself), and spreading \<open>undefined\<close> throws a \<open>TypeError\<close>.
\<close>

fun x_loop :: "nat \<Rightarrow> jsvalue list \<Rightarrow> jsnum \<Rightarrow> jsnum \<Rightarrow> error + jsnum \<times> jsnum" where
  "x_loop max_args [] minimum maximum = Inr (minimum, maximum)"
| "x_loop max_args (Line l # rest) minimum maximum =
     (case Math_min max_args (line_x l) minimum of
        Inl e \<Rightarrow> Inl e
      | Inr minimum' \<Rightarrow>
          (case Math_max max_args (line_x l) maximum of
             Inl e \<Rightarrow> Inl e
           | Inr maximum' \<Rightarrow> x_loop max_args rest minimum' maximum'))"
| "x_loop max_args (_ # rest) minimum maximum = Inl TypeError"

fun y_loop :: "nat \<Rightarrow> jsvalue list \<Rightarrow> jsnum \<Rightarrow> jsnum \<Rightarrow> error + jsnum \<times> jsnum" where
  "y_loop max_args [] minimum maximum = Inr (minimum, maximum)"
| "y_loop max_args (Line l # rest) minimum maximum =
     (case Math_min max_args (line_y l) minimum of
        Inl e \<Rightarrow> Inl e
      | Inr minimum' \<Rightarrow>
          (case Math_max max_args (line_y l) maximum of
             Inl e \<Rightarrow> Inl e
           | Inr maximum' \<Rightarrow> y_loop max_args rest minimum' maximum'))"
| "y_loop max_args (_ # rest) minimum maximum = Inl TypeError"

text \<open>
  \<open>multilineData[0].x[0]\<close> throws a \<open>TypeError\<close> when the array is empty or its first
  element is not a line object.
\<close>

fun calculateMultiXDomain :: "nat \<Rightarrow> jsvalue list \<Rightarrow> error + jsnum \<times> jsnum" where
  "calculateMultiXDomain max_args (Line l # rest) =
     x_loop max_args (Line l # rest) (first_sample (line_x l)) (first_sample (line_x l))"
| "calculateMultiXDomain max_args _ = Inl TypeError"

fun calculateMultiYDomain :: "nat \<Rightarrow> jsvalue list \<Rightarrow> error + jsnum \<times> jsnum" where
  "calculateMultiYDomain max_args (Line l # rest) =
     y_loop max_args (Line l # rest) (first_sample (line_y l)) (first_sample (line_y l))"
| "calculateMultiYDomain max_args _ = Inl TypeError"

text \<open>Numeric comparison \<open>a <= b\<close>: false as soon as one side is \<open>NaN\<close>.\<close>

fun js_le :: "jsnum \<Rightarrow> jsnum \<Rightarrow> bool" where
  "js_le (Num a) (Num b) = (a \<le> b)"
| "js_le _ _ = False"

text \<open>
  All samples of all series of a collection, per axis, and the series that can be spread
  as arguments on both axes (the call takes the samples and one argument more).
\<close>

definition x_samples :: "LineData list \<Rightarrow> jsnum list" where
  "x_samples ls = concat (map line_x ls)"

definition y_samples :: "LineData list \<Rightarrow> jsnum list" where
  "y_samples ls = concat (map line_y ls)"

definition spreadable :: "nat \<Rightarrow> LineData \<Rightarrow> bool" where
  "spreadable max_args l = (length (line_x l) < max_args \<and> length (line_y l) < max_args)"

text \<open>
  What the domain property asks of a result: the computation returned a pair, both of its
  components occur among the samples, and every sample lies between them.
\<close>

definition attained_and_bounding :: "jsnum list \<Rightarrow> error + jsnum \<times> jsnum \<Rightarrow> bool" where
  "attained_and_bounding samples r =
     (case r of
        Inl _ \<Rightarrow> False
      | Inr (minimum, maximum) \<Rightarrow>
          minimum \<in> set samples \<and> maximum \<in> set samples \<and>
          list_all (\<lambda>v. js_le minimum v \<and> js_le v maximum) samples)"

text \<open>
  What a domain computed over a whole collection has to be, given the samples of the
  first series and the samples of all series on the axis: \<open>[NaN, NaN]\<close> when the first
  series has no sample to seed from or some sample is \<open>NaN\<close>, and otherwise the least and
  the greatest of all samples.
\<close>

definition domain_over :: "jsnum list \<Rightarrow> jsnum list \<Rightarrow> jsnum \<times> jsnum \<Rightarrow> bool" where
  "domain_over first samples d =
     (if first = [] \<or> NaN \<in> set samples then d = (NaN, NaN)
      else attained_and_bounding samples (Inr d))"

section \<open>The plot component\<close>

text \<open>
  \<open>PlotMessage\<close> as the component builds it: \<open>type\<close>, named \<open>msg_type\<close> here, is the
  numeric message kind (0 for a status, 1 for an add-line request), \<open>params\<close> is either
  \<open>{status: ...}\<close> or \<open>{line_id: ...}\<close>. The component passes \<open>JSON.stringify(message)\<close>
  to the socket; the model keeps the message itself.
\<close>

datatype params = StatusParams string | NewLineParams string

record PlotMessage =
  plot_id :: string
  msg_type :: int
  params :: params

datatype ReadyState = CONNECTING | OPEN | CLOSING | CLOSED

text \<open>
  The component and its socket in one record. \<open>sent\<close> lists what the socket has
  accepted for transmission, oldest first. \<open>open_listeners\<close> lists the listeners that
  \<open>waitForOpenSocket\<close> has added for the \<open>open\<close> event, oldest first; each one resolves the
  promise that one call of \<open>sendNewLineRequest\<close> awaits, and is represented by the
  argument of that call, which is all its continuation needs. The domains are the
  two-element arrays \<open>[minimum, maximum]\<close>. \<open>lineID\<close> is a small counter and is
  modelled as an integer (it is exact as a double below \<open>2^53\<close>).
\<close>

record PlotComponent =
  props_plot_id :: string
  multilineData :: "jsvalue list"
  readyState :: ReadyState
  sent :: "PlotMessage list"
  open_listeners :: "int list"
  lineID :: int
  multilineXDomain :: "jsnum \<times> jsnum"
  multilineYDomain :: "jsnum \<times> jsnum"

text \<open>The constructor and the field initialisers: a new socket is connecting.\<close>

definition PlotComponent_new :: "string \<Rightarrow> PlotComponent" where
  "PlotComponent_new pid =
     \<lparr>props_plot_id = pid, multilineData = [], readyState = CONNECTING, sent = [],
      open_listeners = [], lineID = 3,
      multilineXDomain = (Num 0, Num 0), multilineYDomain = (Num 0, Num 0)\<rparr>"

text \<open>
  \<open>socket.send\<close>: throws \<open>InvalidStateError\<close> while connecting, transmits when open, and
  silently discards the data once the socket is closing or closed.
\<close>

definition socket_send :: "PlotMessage \<Rightarrow> PlotComponent \<Rightarrow> completion \<times> PlotComponent" where
  "socket_send msg s =
     (case readyState s of
        CONNECTING \<Rightarrow> (Throw InvalidStateError, s)
      | OPEN \<Rightarrow> (Normal, s\<lparr>sent := sent s @ [msg]\<rparr>)
      | CLOSING \<Rightarrow> (Normal, s)
      | CLOSED \<Rightarrow> (Normal, s))"

text \<open>The status message \<open>{plot_id, type: 0, params: {status: "ready"}}\<close>.\<close>

definition ready_status :: "PlotComponent \<Rightarrow> PlotMessage" where
  "ready_status s = \<lparr>plot_id = props_plot_id s, msg_type = 0, params = StatusParams ''ready''\<rparr>"

text \<open>
  \<open>plot_multiline_data\<close>. \<open>message.data\<close> is read twice and used as it is. When it is not
  an array, \<open>multilineData[0].x\<close> throws a \<open>TypeError\<close>. The x domain is assigned before the y domain is
  computed, and \<open>setState\<close> comes last; \<open>setState\<close> is taken to have been applied when
  the next handler runs.
\<close>

definition plot_multiline_data ::
  "nat \<Rightarrow> message \<Rightarrow> PlotComponent \<Rightarrow> completion \<times> PlotComponent" where
  "plot_multiline_data max_args m s =
     (case m ''data'' of
        Array multiline \<Rightarrow>
          (case calculateMultiXDomain max_args multiline of
             Inl e \<Rightarrow> (Throw e, s)
           | Inr xd \<Rightarrow>
               (case calculateMultiYDomain max_args multiline of
                  Inl e \<Rightarrow> (Throw e, s\<lparr>multilineXDomain := xd\<rparr>)
                | Inr yd \<Rightarrow>
                    (Normal, s\<lparr>multilineXDomain := xd, multilineYDomain := yd,
                                multilineData := multiline\<rparr>)))
      | _ \<Rightarrow> (Throw TypeError, s))"

text \<open>
  \<open>plot_new_line_data\<close>. \<open>push\<close> changes the array held in \<open>this.state\<close> in place, so the
  new element stays in the collection even when a domain computation throws afterwards;
  the closing \<open>setState\<close> installs the same array again.
\<close>

definition plot_new_line_data ::
  "nat \<Rightarrow> message \<Rightarrow> PlotComponent \<Rightarrow> completion \<times> PlotComponent" where
  "plot_new_line_data max_args m s =
     (let newLineData = m ''data'';
          s1 = s\<lparr>multilineData := multilineData s @ [newLineData]\<rparr>
      in case calculateMultiXDomain max_args (multilineData s1) of
           Inl e \<Rightarrow> (Throw e, s1)
         | Inr xd \<Rightarrow>
             (case calculateMultiYDomain max_args (multilineData s1) of
                Inl e \<Rightarrow> (Throw e, s1\<lparr>multilineXDomain := xd\<rparr>)
              | Inr yd \<Rightarrow> (Normal, s1\<lparr>multilineXDomain := xd, multilineYDomain := yd\<rparr>)))"

definition clear_all_line_data :: "PlotComponent \<Rightarrow> PlotComponent" where
  "clear_all_line_data s =
     s\<lparr>multilineXDomain := (Num 0, Num 1), multilineYDomain := (Num 0, Num 1),
       multilineData := []\<rparr>"

text \<open>Sequencing: an exception leaves the handler, skipping what follows.\<close>

definition and_then ::
  "completion \<times> PlotComponent \<Rightarrow> (PlotComponent \<Rightarrow> completion \<times> PlotComponent) \<Rightarrow>
   completion \<times> PlotComponent" where
  "and_then r f = (case r of (Normal, s) \<Rightarrow> f s | (Throw e, s) \<Rightarrow> (Throw e, s))"

text \<open>
  \<open>socket.onmessage\<close>: the \<open>switch\<close> on \<open>decoded_message["type"]\<close>, whose cases compare
  with \<open>===\<close> against the three string constants.
\<close>

definition onmessage ::
  "nat \<Rightarrow> message \<Rightarrow> PlotComponent \<Rightarrow> completion \<times> PlotComponent" where
  "onmessage max_args m s =
     (if m ''type'' = Str ''multiline data'' then
        and_then (plot_multiline_data max_args m s) (\<lambda>s'. socket_send (ready_status s') s')
      else if m ''type'' = Str ''new line data'' then
        and_then (plot_new_line_data max_args m s) (\<lambda>s'. socket_send (ready_status s') s')
      else if m ''type'' = Str ''clear plots'' then
        and_then (Normal, clear_all_line_data s) (\<lambda>s'. socket_send (ready_status s') s')
      else (Normal, s))"

text \<open>\<open>socket.onopen\<close>: sends the initial status.\<close>

definition onopen :: "PlotComponent \<Rightarrow> completion \<times> PlotComponent" where
  "onopen s = socket_send (ready_status s) s"

subsection \<open>Requesting a new line\<close>

text \<open>\<open>String(n)\<close> for an integer \<open>n\<close>: its decimal digits, with a leading minus sign.\<close>

fun decimal :: "nat \<Rightarrow> string" where
  "decimal n =
     (if n < 10 then [''0123456789'' ! n] else decimal (n div 10) @ [''0123456789'' ! (n mod 10)])"

definition js_String :: "int \<Rightarrow> string" where
  "js_String n = (if n < 0 then CHR ''-'' # decimal (nat (- n)) else decimal (nat n))"

datatype promise = Pending | Resolved

text \<open>
  \<open>waitForOpenSocket\<close>: the executor of the promise either adds \<open>resolve\<close> as a listener
  for \<open>open\<close> or resolves at once. \<open>k\<close> names the caller that awaits the promise.
\<close>

definition waitForOpenSocket :: "int \<Rightarrow> PlotComponent \<Rightarrow> promise \<times> PlotComponent" where
  "waitForOpenSocket k s =
     (if readyState s \<noteq> OPEN then (Pending, s\<lparr>open_listeners := open_listeners s @ [k]\<rparr>)
      else (Resolved, s))"

definition new_line_message :: "PlotComponent \<Rightarrow> int \<Rightarrow> PlotMessage" where
  "new_line_message s nextLineID =
     \<lparr>plot_id = props_plot_id s, msg_type = 1, params = NewLineParams (js_String nextLineID)\<rparr>"

text \<open>
  The part of \<open>sendNewLineRequest\<close> after the \<open>await\<close>. An exception here would reject
  the promise of the async function, which no caller awaits.
\<close>

definition sendNewLineRequest_resume :: "int \<Rightarrow> PlotComponent \<Rightarrow> PlotComponent" where
  "sendNewLineRequest_resume nextLineID s = snd (socket_send (new_line_message s nextLineID) s)"

text \<open>
  \<open>sendNewLineRequest\<close>: awaiting a resolved promise resumes in the same turn of the
  event loop, before any other event is handled; awaiting a pending one returns to the
  caller and leaves the rest to the listener.
\<close>

definition sendNewLineRequest :: "int \<Rightarrow> PlotComponent \<Rightarrow> PlotComponent" where
  "sendNewLineRequest nextLineID s =
     (case waitForOpenSocket nextLineID s of
        (Resolved, s') \<Rightarrow> sendNewLineRequest_resume nextLineID s'
      | (Pending, s') \<Rightarrow> s')"

definition handleAddLine :: "PlotComponent \<Rightarrow> PlotComponent" where
  "handleAddLine s = (let s' = s\<lparr>lineID := lineID s + 1\<rparr> in sendNewLineRequest (lineID s') s')"

text \<open>
  The socket opens: the state becomes \<open>OPEN\<close> and the \<open>open\<close> event runs \<open>onopen\<close>
  (installed by \<open>componentDidMount\<close>, before any click) and then the listeners in the
  order they were added, each resuming its caller. The event fires once per socket, so
  no listener is left waiting afterwards.
\<close>

definition socket_open :: "PlotComponent \<Rightarrow> PlotComponent" where
  "socket_open s =
     (let s1 = snd (onopen (s\<lparr>readyState := OPEN\<rparr>));
          s2 = fold sendNewLineRequest_resume (open_listeners s1) s1
      in s2\<lparr>open_listeners := []\<rparr>)"

text \<open>
  What happens to a mounted component: its socket opens, reports an error, starts to
  close or is closed, a message arrives, or the "Add line" button is clicked. The browser
  fires \<open>open\<close> only on a connecting socket and delivers messages only on an open one. A
  closing handshake starts on an open socket; a connection that fails or ends leaves the
  socket closed, and a closed socket never opens again. The component installs no
  handler for \<open>error\<close> or \<open>close\<close>, so these events change nothing but the state of the
  socket.
\<close>

datatype event =
  SocketOpen | SocketError | SocketClosing | SocketClosed | Message message | AddLineClick

fun step :: "nat \<Rightarrow> PlotComponent \<Rightarrow> event \<Rightarrow> PlotComponent" where
  "step max_args s SocketOpen = (if readyState s = CONNECTING then socket_open s else s)"
| "step max_args s SocketError = s"
| "step max_args s SocketClosing =
     (if readyState s = OPEN then s\<lparr>readyState := CLOSING\<rparr> else s)"
| "step max_args s SocketClosed = s\<lparr>readyState := CLOSED\<rparr>"
| "step max_args s (Message m) =
     (if readyState s = OPEN then snd (onmessage max_args m s) else s)"
| "step max_args s AddLineClick = handleAddLine s"

definition run :: "nat \<Rightarrow> event list \<Rightarrow> PlotComponent \<Rightarrow> PlotComponent" where
  "run max_args evs s = foldl (step max_args) s evs"

text \<open>The \<open>line_id\<close>s of the add-line requests among the messages sent, in order.\<close>

definition line_ids :: "PlotMessage list \<Rightarrow> string list" where
  "line_ids ms =
     concat (map (\<lambda>msg. case params msg of
                            NewLineParams l \<Rightarrow> (if msg_type msg = 1 then [l] else [])
                          | StatusParams _ \<Rightarrow> []) ms)"

section \<open>The selection component\<close>

text \<open>
  A \<open>Vector3\<close> of the graphics library, with real coordinates; \<open>new Vector3(a, b)\<close>
  leaves \<open>z\<close> at 0, and \<open>v.sub(o)\<close> subtracts component by component.
\<close>

record Vector3 =
  vx :: real
  vy :: real
  vz :: real

definition Vector3_new :: "real \<Rightarrow> real \<Rightarrow> Vector3" where
  "Vector3_new a b = \<lparr>vx = a, vy = b, vz = 0\<rparr>"

definition sub :: "Vector3 \<Rightarrow> Vector3 \<Rightarrow> Vector3" where
  "sub v o' = \<lparr>vx = vx v - vx o', vy = vy v - vy o', vz = vz v - vz o'\<rparr>"

text \<open>
  \<open>isFlipped\<close>. The transform \<open>dataToHtml\<close> and the camera come from the canvas context
  and are parameters here.
\<close>

definition isFlipped :: "('camera \<Rightarrow> Vector3 \<Rightarrow> Vector3) \<Rightarrow> 'camera \<Rightarrow> bool \<times> bool" where
  "isFlipped dataToHtml camera =
     (let o' = dataToHtml camera (Vector3_new 0 0);
          v = sub (dataToHtml camera (Vector3_new 1 1)) o'
      in (vx v < 0, vy v < 0))"

text \<open>The keys of the \<open>counters\<close> object are the selection kinds.\<close>

datatype SelectionType =
  line | rectangle | polyline | polygon | circle | ellipse | sector | unknown


















section \<open>Concrete inputs\<close>

text \<open>
  An engine that accepts 65536 arguments in a call. The series of the spec's scenarios,
  \<open>A = [(0,0),(1,1)]\<close>, \<open>B = [(0,2),(2,0)]\<close> and \<open>C = [(5,5)]\<close>; a series
  \<open>D = [(3,3),(1,4)]\<close>; a series \<open>E\<close> without samples; a series \<open>N\<close> with a \<open>NaN\<close> sample;
  and a series \<open>long\<close> of 150000 samples \<open>(9,9)\<close>.
\<close>

definition engine_limit :: nat where
  "engine_limit = 65536"

definition series :: "string \<Rightarrow> real list \<Rightarrow> real list \<Rightarrow> LineData" where
  "series k xs ys =
     \<lparr>key = k, color = None, line_x = map Num xs, line_y = map Num ys, line_on = True,
      point_size = None\<rparr>"

definition series_A :: LineData where
  "series_A = series ''A'' [0, 1] [0, 1]"

definition series_B :: LineData where
  "series_B = series ''B'' [0, 2] [2, 0]"

definition series_C :: LineData where
  "series_C = series ''C'' [5] [5]"

definition series_E :: LineData where
  "series_E = series ''E'' [] []"

definition series_N :: LineData where
  "series_N = (series ''N'' [] [0, 1])\<lparr>line_x := [NaN, Num 1]\<rparr>"

definition series_D :: LineData where
  "series_D = series ''D'' [3, 1] [3, 4]"

definition series_long :: LineData where
  "series_long = series ''long'' (replicate 150000 9) (replicate 150000 9)"

text \<open>A decoded message, written as the list of its properties.\<close>

definition object :: "(string \<times> jsvalue) list \<Rightarrow> message" where
  "object props k = (case map_of props k of None \<Rightarrow> Undefined | Some v \<Rightarrow> v)"

definition multi_AB :: message where
  "multi_AB =
     object [(''type'', Str ''multiline data''), (''data'', Array [Line series_A, Line series_B])]"


definition new_line_C :: message where
  "new_line_C = object [(''type'', Str ''new line data''), (''data'', Line series_C)]"

definition multi_long :: message where
  "multi_long = object [(''type'', Str ''multiline data''), (''data'', Array [Line series_long])]"


definition multi_empty :: message where
  "multi_empty = object [(''type'', Str ''multiline data''), (''data'', Array [])]"

definition multi_ml_data :: message where
  "multi_ml_data =
     object [(''type'', Str ''multiline data''), (''ml_data'', Array [Line series_A])]"

definition new_line_al_data :: message where
  "new_line_al_data = object [(''type'', Str ''new line data''), (''al_data'', Line series_A)]"

text \<open>
  A component whose socket has opened and which has received nothing yet, and the same
  component after the message \<open>multi_DB\<close>.
\<close>

definition connected :: PlotComponent where
  "connected = socket_open (PlotComponent_new ''plot_0'')"


text \<open>The clicks of a trace, and the part of the component that the store handlers leave alone.\<close>

fun is_click :: "event \<Rightarrow> bool" where
  "is_click AddLineClick = True"
| "is_click _ = False"

definition socket_part ::
  "PlotComponent \<Rightarrow> string \<times> ReadyState \<times> PlotMessage list \<times> int list \<times> int" where
  "socket_part s = (props_plot_id s, readyState s, sent s, open_listeners s, lineID s)"



section \<open>Properties of the axis domains\<close>

lemma js_le_trans: "js_le a b \<Longrightarrow> js_le b c \<Longrightarrow> js_le a c"
  by (cases a; cases b; cases c) auto

lemma js_le_refl: "a \<noteq> NaN \<Longrightarrow> js_le a a"
  by (cases a) auto

lemma js_min_props:
  assumes "v \<noteq> NaN" "m \<noteq> NaN"
  shows "js_min v m \<noteq> NaN" "js_min v m = v \<or> js_min v m = m"
    "js_le (js_min v m) v" "js_le (js_min v m) m"
  using assms by (cases v; cases m; auto simp: min_def)+

lemma js_max_props:
  assumes "v \<noteq> NaN" "m \<noteq> NaN"
  shows "js_max v m \<noteq> NaN" "js_max v m = v \<or> js_max v m = m"
    "js_le v (js_max v m)" "js_le m (js_max v m)"
  using assms by (cases v; cases m; auto simp: max_def)+

lemma fold_js_min_props:
  assumes "NaN \<notin> set vs" "m \<noteq> NaN"
  shows "fold js_min vs m \<noteq> NaN \<and> (fold js_min vs m = m \<or> fold js_min vs m \<in> set vs) \<and>
    js_le (fold js_min vs m) m \<and> (\<forall>v\<in>set vs. js_le (fold js_min vs m) v)"
  using assms
proof (induction vs arbitrary: m)
  case Nil
  then show ?case by (simp add: js_le_refl)
next
  case (Cons v vs)
  have v: "v \<noteq> NaN" and vs: "NaN \<notin> set vs" using Cons.prems(1) by auto
  note p = js_min_props[OF v Cons.prems(2)]
  note ih = Cons.IH[OF vs p(1)]
  show ?case using ih p(2,3,4) by (auto intro: js_le_trans)
qed

lemma fold_js_max_props:
  assumes "NaN \<notin> set vs" "m \<noteq> NaN"
  shows "fold js_max vs m \<noteq> NaN \<and> (fold js_max vs m = m \<or> fold js_max vs m \<in> set vs) \<and>
    js_le m (fold js_max vs m) \<and> (\<forall>v\<in>set vs. js_le v (fold js_max vs m))"
  using assms
proof (induction vs arbitrary: m)
  case Nil
  then show ?case by (simp add: js_le_refl)
next
  case (Cons v vs)
  have v: "v \<noteq> NaN" and vs: "NaN \<notin> set vs" using Cons.prems(1) by auto
  note p = js_max_props[OF v Cons.prems(2)]
  note ih = Cons.IH[OF vs p(1)]
  show ?case using ih p(2,3,4) by (auto intro: js_le_trans)
qed

text \<open>\<open>NaN\<close> among the arguments, or as the running value, makes the result \<open>NaN\<close>.\<close>

lemma js_min_NaN: "js_min v NaN = NaN" "js_min NaN m = NaN"
  by (cases v; simp) simp

lemma js_max_NaN: "js_max v NaN = NaN" "js_max NaN m = NaN"
  by (cases v; simp) simp

lemma fold_js_min_NaN: "m = NaN \<or> NaN \<in> set vs \<Longrightarrow> fold js_min vs m = NaN"
proof (induction vs arbitrary: m)
  case Nil
  then show ?case by simp
next
  case (Cons v vs)
  show ?case
  proof (cases "m = NaN \<or> v = NaN")
    case True
    then have "js_min v m = NaN" using js_min_NaN by blast
    then show ?thesis using Cons.IH[of "js_min v m"] by simp
  next
    case False
    then have "NaN \<in> set vs" using Cons.prems by auto
    then show ?thesis using Cons.IH[of "js_min v m"] by simp
  qed
qed

lemma fold_js_max_NaN: "m = NaN \<or> NaN \<in> set vs \<Longrightarrow> fold js_max vs m = NaN"
proof (induction vs arbitrary: m)
  case Nil
  then show ?case by simp
next
  case (Cons v vs)
  show ?case
  proof (cases "m = NaN \<or> v = NaN")
    case True
    then have "js_max v m = NaN" using js_max_NaN by blast
    then show ?thesis using Cons.IH[of "js_max v m"] by simp
  next
    case False
    then have "NaN \<in> set vs" using Cons.prems by auto
    then show ?thesis using Cons.IH[of "js_max v m"] by simp
  qed
qed

lemma Math_min_short:
  "length vs < max_args \<Longrightarrow> Math_min max_args vs m = Inr (fold js_min vs m)"
  by (simp add: Math_min_def)

lemma Math_max_short:
  "length vs < max_args \<Longrightarrow> Math_max max_args vs m = Inr (fold js_max vs m)"
  by (simp add: Math_max_def)

lemma Math_min_long:
  "max_args \<le> length vs \<Longrightarrow> Math_min max_args vs m = Inl RangeError"
  by (simp add: Math_min_def)

text \<open>
  One axis at a time: the loop over a collection of series, for any reader \<open>f\<close> of
  samples, as long as every series can be spread.
\<close>

lemma loop_props:
  fixes f :: "LineData \<Rightarrow> jsnum list"
    and loop :: "jsvalue list \<Rightarrow> jsnum \<Rightarrow> jsnum \<Rightarrow> error + jsnum \<times> jsnum"
  assumes nil: "\<And>a b. loop [] a b = Inr (a, b)"
    and cons: "\<And>l rest a b. length (f l) < max_args \<Longrightarrow>
      loop (Line l # rest) a b = loop rest (fold js_min (f l) a) (fold js_max (f l) b)"
    and "\<forall>l\<in>set ls. length (f l) < max_args"
    and "NaN \<notin> set (concat (map f ls))" "mn \<noteq> NaN" "mx \<noteq> NaN"
  shows "\<exists>mn' mx'. loop (map Line ls) mn mx = Inr (mn', mx') \<and>
    mn' \<noteq> NaN \<and> mx' \<noteq> NaN \<and>
    (mn' = mn \<or> mn' \<in> set (concat (map f ls))) \<and> (mx' = mx \<or> mx' \<in> set (concat (map f ls))) \<and>
    js_le mn' mn \<and> js_le mx mx' \<and>
    (\<forall>v\<in>set (concat (map f ls)). js_le mn' v \<and> js_le v mx')"
  using assms(3-)
proof (induction ls arbitrary: mn mx)
  case Nil
  then show ?case by (simp add: nil js_le_refl)
next
  case (Cons l ls)
  have len: "length (f l) < max_args" and lens: "\<forall>l\<in>set ls. length (f l) < max_args"
    using Cons.prems(1) by auto
  have hd: "NaN \<notin> set (f l)" and tl: "NaN \<notin> set (concat (map f ls))"
    using Cons.prems(2) by auto
  note a = fold_js_min_props[OF hd Cons.prems(3)]
  note b = fold_js_max_props[OF hd Cons.prems(4)]
  from Cons.IH[OF lens tl conjunct1[OF a] conjunct1[OF b]]
  obtain mn' mx' where r: "loop (map Line ls) (fold js_min (f l) mn) (fold js_max (f l) mx) = Inr (mn', mx')"
    and p: "mn' \<noteq> NaN" "mx' \<noteq> NaN"
      "mn' = fold js_min (f l) mn \<or> mn' \<in> set (concat (map f ls))"
      "mx' = fold js_max (f l) mx \<or> mx' \<in> set (concat (map f ls))"
      "js_le mn' (fold js_min (f l) mn)" "js_le (fold js_max (f l) mx) mx'"
      "\<forall>v\<in>set (concat (map f ls)). js_le mn' v \<and> js_le v mx'"
    by blast
  have s: "set (concat (map f (l # ls))) = set (f l) \<union> set (concat (map f ls))"
    by simp
  have "mn' = mn \<or> mn' \<in> set (concat (map f (l # ls)))" using p(3) a s by auto
  moreover have "mx' = mx \<or> mx' \<in> set (concat (map f (l # ls)))" using p(4) b s by auto
  moreover have "js_le mn' mn" using p(5) a by (blast intro: js_le_trans)
  moreover have "js_le mx mx'" using p(6) b by (blast intro: js_le_trans)
  moreover have "\<forall>v\<in>set (concat (map f (l # ls))). js_le mn' v \<and> js_le v mx'"
    using p(5,6,7) a b s by (auto intro: js_le_trans)
  ultimately show ?case using r p(1,2) by (simp add: cons[OF len])
qed

lemma loop_NaN:
  fixes f :: "LineData \<Rightarrow> jsnum list"
    and loop :: "jsvalue list \<Rightarrow> jsnum \<Rightarrow> jsnum \<Rightarrow> error + jsnum \<times> jsnum"
  assumes nil: "\<And>a b. loop [] a b = Inr (a, b)"
    and cons: "\<And>l rest a b. length (f l) < max_args \<Longrightarrow>
      loop (Line l # rest) a b = loop rest (fold js_min (f l) a) (fold js_max (f l) b)"
    and "\<forall>l\<in>set ls. length (f l) < max_args"
    and "(mn = NaN \<and> mx = NaN) \<or> NaN \<in> set (concat (map f ls))"
  shows "loop (map Line ls) mn mx = Inr (NaN, NaN)"
  using assms(3-)
proof (induction ls arbitrary: mn mx)
  case Nil
  then show ?case by (simp add: nil)
next
  case (Cons l ls)
  have len: "length (f l) < max_args" and lens: "\<forall>l\<in>set ls. length (f l) < max_args"
    using Cons.prems(1) by auto
  have step: "loop (map Line (l # ls)) mn mx =
      loop (map Line ls) (fold js_min (f l) mn) (fold js_max (f l) mx)"
    by (simp add: cons[OF len])
  show ?case
  proof (cases "(mn = NaN \<and> mx = NaN) \<or> NaN \<in> set (f l)")
    case True
    then have "fold js_min (f l) mn = NaN \<and> fold js_max (f l) mx = NaN"
      by (auto simp: fold_js_min_NaN fold_js_max_NaN)
    then show ?thesis using Cons.IH[OF lens] step by simp
  next
    case False
    then have "NaN \<in> set (concat (map f ls))" using Cons.prems(2) by auto
    then show ?thesis using Cons.IH[OF lens] step by simp
  qed
qed

lemma seeded_loop_domain_over:
  fixes f :: "LineData \<Rightarrow> jsnum list"
    and loop :: "jsvalue list \<Rightarrow> jsnum \<Rightarrow> jsnum \<Rightarrow> error + jsnum \<times> jsnum"
  assumes nil: "\<And>a b. loop [] a b = Inr (a, b)"
    and cons: "\<And>l rest a b. length (f l) < max_args \<Longrightarrow>
      loop (Line l # rest) a b = loop rest (fold js_min (f l) a) (fold js_max (f l) b)"
    and ne: "ls \<noteq> []" and short: "\<forall>l\<in>set ls. length (f l) < max_args"
  shows "\<exists>d. loop (map Line ls) (first_sample (f (hd ls))) (first_sample (f (hd ls))) = Inr d \<and>
    domain_over (f (hd ls)) (concat (map f ls)) d"
proof (cases "f (hd ls) = [] \<or> NaN \<in> set (concat (map f ls))")
  case True
  have "first_sample (f (hd ls)) = NaN \<or> NaN \<in> set (concat (map f ls))"
    using True by (auto simp: first_sample_def)
  then have "loop (map Line ls) (first_sample (f (hd ls))) (first_sample (f (hd ls))) =
      Inr (NaN, NaN)"
    using loop_NaN[of loop f max_args ls, OF nil cons short] by blast
  then show ?thesis using True by (simp add: domain_over_def)
next
  case False
  then have nan: "NaN \<notin> set (concat (map f ls))" by simp
  obtain v vs where fv: "f (hd ls) = v # vs" using False by (cases "f (hd ls)") auto
  have seed: "first_sample (f (hd ls)) = v" by (simp add: first_sample_def fv)
  have vin: "v \<in> set (concat (map f ls))" using ne fv by (cases ls) auto
  then have vn: "v \<noteq> NaN" using nan by auto
  from loop_props[of loop f max_args ls v v, OF nil cons short nan vn vn]
  obtain mn' mx' where r: "loop (map Line ls) v v = Inr (mn', mx')"
    and p: "mn' = v \<or> mn' \<in> set (concat (map f ls))" "mx' = v \<or> mx' \<in> set (concat (map f ls))"
      "\<forall>v\<in>set (concat (map f ls)). js_le mn' v \<and> js_le v mx'"
    by blast
  have "attained_and_bounding (concat (map f ls)) (Inr (mn', mx'))"
    using p vin by (auto simp: attained_and_bounding_def list_all_iff)
  then show ?thesis using r False by (simp add: domain_over_def seed)
qed

lemma x_loop_short:
  "length (line_x l) < max_args \<Longrightarrow>
   x_loop max_args (Line l # rest) a b =
     x_loop max_args rest (fold js_min (line_x l) a) (fold js_max (line_x l) b)"
  by (simp add: Math_min_short Math_max_short)

lemma y_loop_short:
  "length (line_y l) < max_args \<Longrightarrow>
   y_loop max_args (Line l # rest) a b =
     y_loop max_args rest (fold js_min (line_y l) a) (fold js_max (line_y l) b)"
  by (simp add: Math_min_short Math_max_short)

lemma calculateMultiXDomain_domain_over:
  assumes "ls \<noteq> []" and "\<forall>l\<in>set ls. length (line_x l) < max_args"
  shows "\<exists>d. calculateMultiXDomain max_args (map Line ls) = Inr d \<and>
    domain_over (line_x (hd ls)) (x_samples ls) d"
proof -
  obtain l rest where ls: "ls = l # rest" using assms(1) by (cases ls) auto
  have c: "calculateMultiXDomain max_args (map Line ls) =
      x_loop max_args (map Line ls) (first_sample (line_x (hd ls))) (first_sample (line_x (hd ls)))"
    by (simp add: ls)
  show ?thesis
    unfolding c x_samples_def
    by (rule seeded_loop_domain_over[of "x_loop max_args" line_x max_args ls,
          OF x_loop.simps(1) x_loop_short assms])
qed

lemma calculateMultiYDomain_domain_over:
  assumes "ls \<noteq> []" and "\<forall>l\<in>set ls. length (line_y l) < max_args"
  shows "\<exists>d. calculateMultiYDomain max_args (map Line ls) = Inr d \<and>
    domain_over (line_y (hd ls)) (y_samples ls) d"
proof -
  obtain l rest where ls: "ls = l # rest" using assms(1) by (cases ls) auto
  have c: "calculateMultiYDomain max_args (map Line ls) =
      y_loop max_args (map Line ls) (first_sample (line_y (hd ls))) (first_sample (line_y (hd ls)))"
    by (simp add: ls)
  show ?thesis
    unfolding c y_samples_def
    by (rule seeded_loop_domain_over[of "y_loop max_args" line_y max_args ls,
          OF y_loop.simps(1) y_loop_short assms])
qed

lemmas series_defs =
  series_A_def series_B_def series_C_def series_D_def series_E_def series_N_def series_def
lemmas domain_defs = Math_min_def Math_max_def first_sample_def engine_limit_def

lemma series_long_length:
  "length (line_x series_long) = 150000" "length (line_y series_long) = 150000"
  by (simp_all add: series_long_def series_def)

text \<open>
  C2, as amended. For a non-empty list of line series whose first series has at least one
  sample on the axis, whose samples on the axis are not \<open>NaN\<close> and each of whose series
  has fewer samples on the axis than the engine accepts arguments in a call,
  \<open>calculateMultiXDomain\<close> (for x) and \<open>calculateMultiYDomain\<close> (for y) return a pair
  \<open>[min, max]\<close> in which \<open>min\<close> and \<open>max\<close> are samples of some series on that axis and
  every sample of every series on that axis lies within \<open>[min, max]\<close>. Nothing else is
  asked of the lengths of the series, which may differ and, after the first, may be zero.
\<close>

theorem domains_attained_and_bounding:
  assumes "ls \<noteq> []"
  shows "(list_all (\<lambda>l. length (line_x l) < max_args) ls \<and>
          line_x (hd ls) \<noteq> [] \<and> NaN \<notin> set (x_samples ls) \<longrightarrow>
            attained_and_bounding (x_samples ls) (calculateMultiXDomain max_args (map Line ls))) \<and>
         (list_all (\<lambda>l. length (line_y l) < max_args) ls \<and>
          line_y (hd ls) \<noteq> [] \<and> NaN \<notin> set (y_samples ls) \<longrightarrow>
            attained_and_bounding (y_samples ls) (calculateMultiYDomain max_args (map Line ls)))"
proof -
  have x: "attained_and_bounding (x_samples ls) (calculateMultiXDomain max_args (map Line ls))"
    if h: "list_all (\<lambda>l. length (line_x l) < max_args) ls" and f: "line_x (hd ls) \<noteq> []"
      and n: "NaN \<notin> set (x_samples ls)"
  proof -
    have "\<forall>l\<in>set ls. length (line_x l) < max_args" using h by (simp add: list_all_iff)
    from calculateMultiXDomain_domain_over[OF assms this]
    show ?thesis using f n by (auto simp: domain_over_def)
  qed
  have y: "attained_and_bounding (y_samples ls) (calculateMultiYDomain max_args (map Line ls))"
    if h: "list_all (\<lambda>l. length (line_y l) < max_args) ls" and f: "line_y (hd ls) \<noteq> []"
      and n: "NaN \<notin> set (y_samples ls)"
  proof -
    have "\<forall>l\<in>set ls. length (line_y l) < max_args" using h by (simp add: list_all_iff)
    from calculateMultiYDomain_domain_over[OF assms this]
    show ?thesis using f n by (auto simp: domain_over_def)
  qed
  show ?thesis using x y by blast
qed

text \<open>
  The collection \<open>[D, B, C]\<close>, with series of lengths 2, 2 and 1, satisfies the
  hypotheses on an engine that accepts 65536 arguments. Its x domain is \<open>[0, 5]\<close>: the
  minimum is a sample of \<open>B\<close>, the maximum the sample of \<open>C\<close>, and neither is the seed 3.
\<close>

theorem domains_attained_and_bounding_witness:
  "[series_D, series_B, series_C] \<noteq> [] \<and>
   list_all (\<lambda>l. length (line_x l) < engine_limit) [series_D, series_B, series_C] \<and>
   line_x (hd [series_D, series_B, series_C]) \<noteq> [] \<and>
   NaN \<notin> set (x_samples [series_D, series_B, series_C]) \<and>
   list_all (\<lambda>l. length (line_y l) < engine_limit) [series_D, series_B, series_C] \<and>
   line_y (hd [series_D, series_B, series_C]) \<noteq> [] \<and>
   NaN \<notin> set (y_samples [series_D, series_B, series_C]) \<and>
   attained_and_bounding (x_samples [series_D, series_B, series_C])
     (calculateMultiXDomain engine_limit (map Line [series_D, series_B, series_C])) \<and>
   attained_and_bounding (y_samples [series_D, series_B, series_C])
     (calculateMultiYDomain engine_limit (map Line [series_D, series_B, series_C])) \<and>
   calculateMultiXDomain engine_limit (map Line [series_D, series_B, series_C]) =
     Inr (Num 0, Num 5)"
proof -
  have h: "[series_D, series_B, series_C] \<noteq> []" by simp
  have x: "list_all (\<lambda>l. length (line_x l) < engine_limit) [series_D, series_B, series_C] \<and>
      line_x (hd [series_D, series_B, series_C]) \<noteq> [] \<and>
      NaN \<notin> set (x_samples [series_D, series_B, series_C])"
    by (simp add: x_samples_def series_defs engine_limit_def)
  have y: "list_all (\<lambda>l. length (line_y l) < engine_limit) [series_D, series_B, series_C] \<and>
      line_y (hd [series_D, series_B, series_C]) \<noteq> [] \<and>
      NaN \<notin> set (y_samples [series_D, series_B, series_C])"
    by (simp add: y_samples_def series_defs engine_limit_def)
  have v: "calculateMultiXDomain engine_limit (map Line [series_D, series_B, series_C]) =
      Inr (Num 0, Num 5)"
    by (simp add: series_defs domain_defs)
  show ?thesis
    using domains_attained_and_bounding[OF h, of engine_limit] x y v by blast
qed

text \<open>
  C2 as stated fails on the non-empty collection \<open>[E, B]\<close>, whose first series has no
  samples: the seed \<open>multilineData[0].x[0]\<close> is \<open>undefined\<close>, both results are \<open>NaN\<close>,
  and \<open>NaN\<close> is neither a sample nor a bound of the samples 0 and 2 of \<open>B\<close>. It fails on
  \<open>[N]\<close>, whose x samples are \<open>NaN\<close> and 1: the results are \<open>NaN\<close>, which does not bound
  the sample 1. And it fails on \<open>[long]\<close>: 150000 samples and the running minimum are
  more arguments than an engine with a limit of 65536 accepts, and the computation
  throws a \<open>RangeError\<close> instead of returning a pair.
\<close>

theorem domain_of_empty_first_series_counterexample:
  "[series_E, series_B] \<noteq> [] \<and>
   calculateMultiXDomain engine_limit (map Line [series_E, series_B]) = Inr (NaN, NaN) \<and>
   \<not> attained_and_bounding (x_samples [series_E, series_B])
       (calculateMultiXDomain engine_limit (map Line [series_E, series_B])) \<and>
   [series_N] \<noteq> [] \<and>
   \<not> attained_and_bounding (x_samples [series_N])
       (calculateMultiXDomain engine_limit (map Line [series_N])) \<and>
   [series_long] \<noteq> [] \<and>
   calculateMultiXDomain engine_limit (map Line [series_long]) = Inl RangeError \<and>
   \<not> attained_and_bounding (x_samples [series_long])
       (calculateMultiXDomain engine_limit (map Line [series_long]))"
proof -
  have a: "calculateMultiXDomain engine_limit (map Line [series_E, series_B]) = Inr (NaN, NaN)"
    by (simp add: series_defs domain_defs)
  have b: "\<not> attained_and_bounding (x_samples [series_E, series_B]) (Inr (NaN, NaN))"
    by (simp add: attained_and_bounding_def x_samples_def series_defs)
  have c: "\<not> attained_and_bounding (x_samples [series_N])
       (calculateMultiXDomain engine_limit (map Line [series_N]))"
    by (simp add: attained_and_bounding_def x_samples_def series_defs domain_defs)
  have d: "calculateMultiXDomain engine_limit (map Line [series_long]) = Inl RangeError"
    by (simp add: Math_min_long series_long_length engine_limit_def)
  show ?thesis unfolding a d using b c by (simp add: attained_and_bounding_def)
qed

section \<open>Properties of the plot state store\<close>

lemma connected_eq:
  "connected = \<lparr>props_plot_id = ''plot_0'', multilineData = [], readyState = OPEN,
     sent = [\<lparr>plot_id = ''plot_0'', msg_type = 0, params = StatusParams ''ready''\<rparr>],
     open_listeners = [], lineID = 3, multilineXDomain = (Num 0, Num 0),
     multilineYDomain = (Num 0, Num 0)\<rparr>"
  by (simp add: connected_def socket_open_def PlotComponent_new_def onopen_def socket_send_def ready_status_def)


lemma spreadable_x: "list_all (spreadable max_args) ls \<Longrightarrow> \<forall>l\<in>set ls. length (line_x l) < max_args"
  by (simp add: list_all_iff spreadable_def)

lemma spreadable_y: "list_all (spreadable max_args) ls \<Longrightarrow> \<forall>l\<in>set ls. length (line_y l) < max_args"
  by (simp add: list_all_iff spreadable_def)




text \<open>
  C5 fails at the initial state: the field initialisers leave the collection empty and
  set both domains to \<open>[0, 0]\<close>, not to the \<open>[0, 1]\<close> that \<open>clear_all_line_data\<close> sets for
  an empty collection.
\<close>

theorem initial_domains_are_zero_width:
  "multilineData (PlotComponent_new pid) = [] \<and>
   multilineXDomain (PlotComponent_new pid) = (Num 0, Num 0) \<and>
   multilineYDomain (PlotComponent_new pid) = (Num 0, Num 0) \<and>
   multilineXDomain (PlotComponent_new pid) \<noteq> (Num 0, Num 1) \<and>
   multilineYDomain (PlotComponent_new pid) \<noteq> (Num 0, Num 1)"
  by (simp add: PlotComponent_new_def)

lemma clear_twice: "clear_all_line_data (clear_all_line_data s) = clear_all_line_data s"
  by (simp add: clear_all_line_data_def)

text \<open>
  C6. \<open>clear_all_line_data\<close> applied once or any number of times in a row, from any
  state, gives the same component, with an empty collection and both domains \<open>[0, 1]\<close>.
\<close>

theorem clear_all_line_data_idempotent:
  "(clear_all_line_data ^^ Suc n) s = clear_all_line_data s \<and>
   multilineData (clear_all_line_data s) = [] \<and>
   multilineXDomain (clear_all_line_data s) = (Num 0, Num 1) \<and>
   multilineYDomain (clear_all_line_data s) = (Num 0, Num 1)"
proof -
  have "(clear_all_line_data ^^ Suc n) s = clear_all_line_data s"
    by (induction n) (simp_all add: clear_twice)
  then show ?thesis by (simp add: clear_all_line_data_def)
qed

section \<open>Properties of the message handler\<close>

text \<open>
  C1 fails on a "multiline data" message whose list of series is empty: the tag is
  recognised, \<open>calculateMultiXDomain\<close> throws on \<open>multilineData[0].x\<close>, the exception
  leaves \<open>onmessage\<close>, and the component is as before: no mutation of the store and no
  acknowledgement among the messages sent.
\<close>

theorem onmessage_empty_multiline_data_not_acknowledged:
  "multi_empty ''type'' = Str ''multiline data'' \<and>
   onmessage max_args multi_empty connected = (Throw TypeError, connected)"
  by (simp add: multi_empty_def object_def onmessage_def plot_multiline_data_def and_then_def)

text \<open>
  C8, as amended. The handlers of "multiline data" and of "new line data" read the
  series payload from the field \<open>data\<close> of the message: a non-empty list of series found
  there, each with fewer samples on either axis than the engine accepts arguments in a
  call, becomes the collection; a series found there is appended to the collection; and
  the fields \<open>ml_data\<close> and \<open>al_data\<close> have no influence on what the handlers do.
\<close>

theorem handlers_read_the_data_field:
  "(m ''data'' = Array (map Line ls) \<and> ls \<noteq> [] \<and> list_all (spreadable max_args) ls \<longrightarrow>
      fst (plot_multiline_data max_args m s) = Normal \<and>
      multilineData (snd (plot_multiline_data max_args m s)) = map Line ls) \<and>
   (m ''data'' = Line l \<longrightarrow>
      multilineData (snd (plot_new_line_data max_args m s)) = multilineData s @ [Line l]) \<and>
   plot_multiline_data max_args (m(''ml_data'' := v)) s = plot_multiline_data max_args m s \<and>
   plot_new_line_data max_args (m(''al_data'' := v)) s = plot_new_line_data max_args m s"
proof -
  have a: "fst (plot_multiline_data max_args m s) = Normal \<and>
      multilineData (snd (plot_multiline_data max_args m s)) = map Line ls"
    if h1: "m ''data'' = Array (map Line ls)" and h2: "ls \<noteq> []"
      and h3: "list_all (spreadable max_args) ls"
  proof -
    obtain xd yd where "calculateMultiXDomain max_args (map Line ls) = Inr xd"
      "calculateMultiYDomain max_args (map Line ls) = Inr yd"
      using calculateMultiXDomain_domain_over[OF h2 spreadable_x[OF h3]]
        calculateMultiYDomain_domain_over[OF h2 spreadable_y[OF h3]]
      by blast
    then show ?thesis using h1 by (simp add: plot_multiline_data_def)
  qed
  have b: "multilineData (snd (plot_new_line_data max_args m s)) = multilineData s @ [Line l]"
    if "m ''data'' = Line l"
    using that by (simp add: plot_new_line_data_def Let_def split: sum.splits)
  show ?thesis using a b by (simp add: plot_multiline_data_def plot_new_line_data_def)
qed

text \<open>
  The messages \<open>multi_AB\<close> and \<open>new_line_C\<close> carry their payload in \<open>data\<close>; the
  handlers install \<open>[A, B]\<close> and append \<open>C\<close>.
\<close>

theorem handlers_read_the_data_field_witness:
  "multi_AB ''data'' = Array (map Line [series_A, series_B]) \<and> [series_A, series_B] \<noteq> [] \<and>
   list_all (spreadable engine_limit) [series_A, series_B] \<and>
   new_line_C ''data'' = Line series_C \<and>
   fst (plot_multiline_data engine_limit multi_AB connected) = Normal \<and>
   multilineData (snd (plot_multiline_data engine_limit multi_AB connected)) =
     map Line [series_A, series_B] \<and>
   multilineData (snd (plot_new_line_data engine_limit new_line_C connected)) = [Line series_C]"
proof -
  have d: "multi_AB ''data'' = Array (map Line [series_A, series_B]) \<and> [series_A, series_B] \<noteq> []"
    by (simp add: multi_AB_def object_def)
  have l: "list_all (spreadable engine_limit) [series_A, series_B]"
    by (simp add: spreadable_def series_defs engine_limit_def)
  have e: "new_line_C ''data'' = Line series_C"
    by (simp add: new_line_C_def object_def)
  have c: "multilineData connected = []" by (simp add: connected_eq)
  have a: "fst (plot_multiline_data engine_limit multi_AB connected) = Normal \<and>
      multilineData (snd (plot_multiline_data engine_limit multi_AB connected)) =
        map Line [series_A, series_B]"
    using handlers_read_the_data_field[of multi_AB "[series_A, series_B]" engine_limit connected]
      d l by blast
  have b: "multilineData (snd (plot_new_line_data engine_limit new_line_C connected)) =
      multilineData connected @ [Line series_C]"
    using handlers_read_the_data_field[of new_line_C _ engine_limit connected series_C] e
    by blast
  show ?thesis using d l e a b c by simp
qed

text \<open>
  C8 as stated fails on messages that carry the payload in \<open>ml_data\<close> and in \<open>al_data\<close>:
  the handlers read \<open>message.data\<close>, which is \<open>undefined\<close>; the first throws and leaves
  the collection empty, the second pushes \<open>undefined\<close> and throws, and neither message is
  acknowledged. A list found in \<open>data\<close> is not installed either when one of its series
  is too long to be spread: for \<open>[long]\<close> the handler throws a \<open>RangeError\<close> and the
  component is as before.
\<close>

theorem ml_data_and_al_data_are_not_read_counterexample:
  "multi_ml_data ''type'' = Str ''multiline data'' \<and>
   multi_ml_data ''ml_data'' = Array [Line series_A] \<and>
   onmessage engine_limit multi_ml_data connected = (Throw TypeError, connected) \<and>
   new_line_al_data ''type'' = Str ''new line data'' \<and>
   new_line_al_data ''al_data'' = Line series_A \<and>
   onmessage engine_limit new_line_al_data connected =
     (Throw TypeError, connected\<lparr>multilineData := [Undefined]\<rparr>) \<and>
   multi_long ''data'' = Array [Line series_long] \<and>
   plot_multiline_data engine_limit multi_long connected = (Throw RangeError, connected)"
proof -
  have a: "multi_ml_data ''type'' = Str ''multiline data'' \<and>
      multi_ml_data ''ml_data'' = Array [Line series_A] \<and>
      onmessage engine_limit multi_ml_data connected = (Throw TypeError, connected) \<and>
      new_line_al_data ''type'' = Str ''new line data'' \<and>
      new_line_al_data ''al_data'' = Line series_A \<and>
      onmessage engine_limit new_line_al_data connected =
        (Throw TypeError, connected\<lparr>multilineData := [Undefined]\<rparr>)"
    by (simp add: multi_ml_data_def new_line_al_data_def object_def onmessage_def
        plot_multiline_data_def plot_new_line_data_def and_then_def connected_eq)
  have d: "multi_long ''data'' = Array [Line series_long]"
    by (simp add: multi_long_def object_def)
  have x: "calculateMultiXDomain engine_limit [Line series_long] = Inl RangeError"
    by (simp add: Math_min_long series_long_length engine_limit_def)
  have b: "plot_multiline_data engine_limit multi_long connected = (Throw RangeError, connected)"
    by (simp add: plot_multiline_data_def d x del: calculateMultiXDomain.simps)
  show ?thesis using a d b by blast
qed

section \<open>Properties of the add-line request\<close>

lemma socket_send_open:
  "readyState s = OPEN \<Longrightarrow> socket_send msg s = (Normal, s\<lparr>sent := sent s @ [msg]\<rparr>)"
  by (simp add: socket_send_def)

lemma resume_open:
  "readyState s = OPEN \<Longrightarrow>
   sendNewLineRequest_resume k s = s\<lparr>sent := sent s @ [new_line_message s k]\<rparr>"
  by (simp add: sendNewLineRequest_resume_def socket_send_open)

lemma fold_resume_open:
  "readyState s = OPEN \<Longrightarrow>
   fold sendNewLineRequest_resume ks s = s\<lparr>sent := sent s @ map (new_line_message s) ks\<rparr>"
proof (induction ks arbitrary: s)
  case Nil
  then show ?case by simp
next
  case (Cons k ks)
  let ?s' = "s\<lparr>sent := sent s @ [new_line_message s k]\<rparr>"
  have o: "readyState ?s' = OPEN" using Cons.prems by simp
  have n: "new_line_message ?s' = new_line_message s"
    by (simp add: new_line_message_def fun_eq_iff)
  show ?case
    using Cons.IH[OF o] Cons.prems by (simp add: resume_open n)
qed

lemma socket_open_eq:
  "socket_open s =
     s\<lparr>readyState := OPEN,
       sent := sent s @ ready_status s # map (new_line_message s) (open_listeners s),
       open_listeners := []\<rparr>"
proof -
  let ?s1 = "s\<lparr>readyState := OPEN, sent := sent s @ [ready_status s]\<rparr>"
  have a: "snd (onopen (s\<lparr>readyState := OPEN\<rparr>)) = ?s1"
    by (simp add: onopen_def socket_send_def ready_status_def)
  have o: "readyState ?s1 = OPEN" by simp
  have n: "new_line_message ?s1 = new_line_message s"
    by (simp add: new_line_message_def fun_eq_iff)
  show ?thesis
    unfolding socket_open_def a Let_def fold_resume_open[OF o] n by simp
qed

lemma sendNewLineRequest_open:
  "readyState s = OPEN \<Longrightarrow>
   sendNewLineRequest k s = s\<lparr>sent := sent s @ [new_line_message s k]\<rparr>"
  by (simp add: sendNewLineRequest_def waitForOpenSocket_def resume_open)

lemma sendNewLineRequest_not_open:
  "readyState s \<noteq> OPEN \<Longrightarrow>
   sendNewLineRequest k s = s\<lparr>open_listeners := open_listeners s @ [k]\<rparr>"
  by (simp add: sendNewLineRequest_def waitForOpenSocket_def)

text \<open>
  C9. When the socket is open, \<open>sendNewLineRequest\<close> sends exactly the message
  \<open>{plot_id, type: 1, params: {line_id}}\<close> and adds no listener. When it is not open,
  the call adds one listener for \<open>open\<close> and sends nothing; when a connecting socket then
  opens, that one message follows what the opening sends without the call, and no
  listener is left waiting.
\<close>

theorem sendNewLineRequest_waits_for_open_then_sends_once:
  "(readyState s = OPEN \<longrightarrow>
      sendNewLineRequest k s =
        s\<lparr>sent := sent s @
          [\<lparr>plot_id = props_plot_id s, msg_type = 1, params = NewLineParams (js_String k)\<rparr>]\<rparr>) \<and>
   (readyState s \<noteq> OPEN \<longrightarrow>
      sendNewLineRequest k s = s\<lparr>open_listeners := open_listeners s @ [k]\<rparr>) \<and>
   (readyState s = CONNECTING \<longrightarrow>
      sent (socket_open (sendNewLineRequest k s)) =
        sent (socket_open s) @
          [\<lparr>plot_id = props_plot_id s, msg_type = 1, params = NewLineParams (js_String k)\<rparr>] \<and>
      open_listeners (socket_open (sendNewLineRequest k s)) = [] \<and>
      readyState (socket_open (sendNewLineRequest k s)) = OPEN)"
proof -
  have c: "sent (socket_open (sendNewLineRequest k s)) =
        sent (socket_open s) @ [new_line_message s k] \<and>
      open_listeners (socket_open (sendNewLineRequest k s)) = [] \<and>
      readyState (socket_open (sendNewLineRequest k s)) = OPEN"
    if h: "readyState s = CONNECTING"
  proof -
    have "readyState s \<noteq> OPEN" using h by simp
    then show ?thesis
      by (simp add: sendNewLineRequest_not_open socket_open_eq ready_status_def
          new_line_message_def)
  qed
  show ?thesis
    using c sendNewLineRequest_open[of s k] sendNewLineRequest_not_open[of s k]
    by (simp add: new_line_message_def)
qed

text \<open>
  The request for line 4 on the open socket of \<open>connected\<close>, and on the connecting
  socket of a new component, which then opens.
\<close>

theorem sendNewLineRequest_waits_for_open_then_sends_once_witness:
  "readyState connected = OPEN \<and>
   sent (sendNewLineRequest 4 connected) =
     [\<lparr>plot_id = ''plot_0'', msg_type = 0, params = StatusParams ''ready''\<rparr>,
      \<lparr>plot_id = ''plot_0'', msg_type = 1, params = NewLineParams ''4''\<rparr>] \<and>
   readyState (PlotComponent_new ''plot_0'') \<noteq> OPEN \<and>
   readyState (PlotComponent_new ''plot_0'') = CONNECTING \<and>
   sent (sendNewLineRequest 4 (PlotComponent_new ''plot_0'')) = [] \<and>
   open_listeners (sendNewLineRequest 4 (PlotComponent_new ''plot_0'')) = [4] \<and>
   sent (socket_open (sendNewLineRequest 4 (PlotComponent_new ''plot_0''))) =
     [\<lparr>plot_id = ''plot_0'', msg_type = 0, params = StatusParams ''ready''\<rparr>,
      \<lparr>plot_id = ''plot_0'', msg_type = 1, params = NewLineParams ''4''\<rparr>] \<and>
   open_listeners (socket_open (sendNewLineRequest 4 (PlotComponent_new ''plot_0''))) = []"
proof -
  let ?new = "PlotComponent_new ''plot_0''"
  have o: "readyState connected = OPEN" by (simp add: connected_eq)
  have n: "readyState ?new = CONNECTING" "readyState ?new \<noteq> OPEN"
    by (simp_all add: PlotComponent_new_def)
  have j: "js_String 4 = ''4''" by (simp add: js_String_def)
  have a: "sendNewLineRequest 4 connected =
      connected\<lparr>sent := sent connected @
        [\<lparr>plot_id = props_plot_id connected, msg_type = 1,
          params = NewLineParams (js_String 4)\<rparr>]\<rparr>"
    using sendNewLineRequest_waits_for_open_then_sends_once[of connected 4] o by blast
  have b: "sendNewLineRequest 4 ?new = ?new\<lparr>open_listeners := open_listeners ?new @ [4]\<rparr>"
    and c: "sent (socket_open (sendNewLineRequest 4 ?new)) =
        sent (socket_open ?new) @
          [\<lparr>plot_id = props_plot_id ?new, msg_type = 1, params = NewLineParams (js_String 4)\<rparr>]"
    and d: "open_listeners (socket_open (sendNewLineRequest 4 ?new)) = []"
    using sendNewLineRequest_waits_for_open_then_sends_once[of ?new 4] n by blast+
  have a': "sent (sendNewLineRequest 4 connected) =
     [\<lparr>plot_id = ''plot_0'', msg_type = 0, params = StatusParams ''ready''\<rparr>,
      \<lparr>plot_id = ''plot_0'', msg_type = 1, params = NewLineParams ''4''\<rparr>]"
    unfolding a j by (simp add: connected_eq)
  have b': "sent (sendNewLineRequest 4 ?new) = [] \<and> open_listeners (sendNewLineRequest 4 ?new) = [4]"
    unfolding b by (simp add: PlotComponent_new_def)
  have c': "sent (socket_open (sendNewLineRequest 4 ?new)) =
     [\<lparr>plot_id = ''plot_0'', msg_type = 0, params = StatusParams ''ready''\<rparr>,
      \<lparr>plot_id = ''plot_0'', msg_type = 1, params = NewLineParams ''4''\<rparr>]"
    unfolding c j using connected_eq by (simp add: connected_def PlotComponent_new_def)
  show ?thesis using o n a' b' c' d by blast
qed

lemma handleAddLine_open:
  "readyState s = OPEN \<Longrightarrow>
   handleAddLine s =
     s\<lparr>lineID := lineID s + 1, sent := sent s @ [new_line_message s (lineID s + 1)]\<rparr>"
  by (simp add: handleAddLine_def Let_def sendNewLineRequest_open new_line_message_def)

lemma handleAddLine_not_open:
  "readyState s \<noteq> OPEN \<Longrightarrow>
   handleAddLine s =
     s\<lparr>lineID := lineID s + 1, open_listeners := open_listeners s @ [lineID s + 1]\<rparr>"
  by (simp add: handleAddLine_def Let_def sendNewLineRequest_not_open)

lemma line_ids_append: "line_ids (a @ b) = line_ids a @ line_ids b"
  by (simp add: line_ids_def)

lemma line_ids_ready: "line_ids [ready_status s] = []"
  by (simp add: line_ids_def ready_status_def)

lemma line_ids_new_line:
  "line_ids (map (\<lambda>k. new_line_message s (f k)) ks) = map (\<lambda>k. js_String (f k)) ks"
  by (induction ks) (simp_all add: line_ids_def new_line_message_def)

lemma line_ids_single: "line_ids [new_line_message s k] = [js_String k]"
  by (simp add: line_ids_def new_line_message_def)

lemma plot_multiline_data_socket:
  "socket_part (snd (plot_multiline_data max_args m s)) = socket_part s"
  by (simp add: plot_multiline_data_def socket_part_def split: jsvalue.splits sum.splits)

lemma plot_new_line_data_socket:
  "socket_part (snd (plot_new_line_data max_args m s)) = socket_part s"
  by (simp add: plot_new_line_data_def socket_part_def Let_def split: sum.splits)

lemma clear_all_line_data_socket:
  "socket_part (clear_all_line_data s) = socket_part s"
  by (simp add: clear_all_line_data_def socket_part_def)

lemma acknowledge_socket:
  assumes "socket_part (snd r) = socket_part s" and "readyState s = OPEN"
  shows "\<exists>acks. set acks \<subseteq> {ready_status s} \<and>
    socket_part (snd (and_then r (\<lambda>s'. socket_send (ready_status s') s'))) =
      (props_plot_id s, readyState s, sent s @ acks, open_listeners s, lineID s)"
proof (cases r)
  case (Pair c s')
  have p: "props_plot_id s' = props_plot_id s" "readyState s' = OPEN" "sent s' = sent s"
    "open_listeners s' = open_listeners s" "lineID s' = lineID s"
    using assms Pair by (simp_all add: socket_part_def)
  have rs: "ready_status s' = ready_status s" using p by (simp add: ready_status_def)
  show ?thesis
  proof (cases c)
    case Normal
    have "socket_part (snd (and_then r (\<lambda>s'. socket_send (ready_status s') s'))) =
      (props_plot_id s, readyState s, sent s @ [ready_status s], open_listeners s, lineID s)"
      using Pair Normal p rs assms(2)
      by (simp add: and_then_def socket_send_open socket_part_def)
    then show ?thesis by (intro exI[of _ "[ready_status s]"]) simp
  next
    case (Throw e)
    have "socket_part (snd (and_then r (\<lambda>s'. socket_send (ready_status s') s'))) =
      (props_plot_id s, readyState s, sent s @ [], open_listeners s, lineID s)"
      using Pair Throw p assms(2) by (simp add: and_then_def socket_part_def)
    then show ?thesis by (intro exI[of _ "[]"]) simp
  qed
qed

lemma onmessage_socket:
  assumes "readyState s = OPEN"
  shows "\<exists>acks. set acks \<subseteq> {ready_status s} \<and>
    socket_part (snd (onmessage max_args m s)) =
      (props_plot_id s, readyState s, sent s @ acks, open_listeners s, lineID s)"
proof -
  have u: "\<exists>acks. set acks \<subseteq> {ready_status s} \<and> socket_part s =
      (props_plot_id s, readyState s, sent s @ acks, open_listeners s, lineID s)"
    by (intro exI[of _ "[]"]) (simp add: socket_part_def)
  show ?thesis
    unfolding onmessage_def
    using acknowledge_socket[OF plot_multiline_data_socket assms, of max_args m]
      acknowledge_socket[OF plot_new_line_data_socket assms, of max_args m]
      acknowledge_socket[of "(Normal, clear_all_line_data s)" s] assms u
    by (simp add: clear_all_line_data_socket)
qed

lemma line_ids_acks: "set acks \<subseteq> {ready_status s} \<Longrightarrow> line_ids acks = []"
proof (induction acks)
  case Nil
  then show ?case by (simp add: line_ids_def)
next
  case (Cons a acks)
  then have "a = ready_status s" by simp
  then show ?case using Cons
    using line_ids_append[of "[a]" acks] by (simp add: line_ids_ready)
qed

lemma run_snoc: "run max_args (evs @ [e]) s = step max_args (run max_args evs s) e"
  by (simp add: run_def)

lemma ids_snoc: "map f [4..<4 + Suc n] = map f [4..<4 + n] @ [f (4 + n)]"
proof -
  have "[4..<Suc (4 + n)] = [4..<4 + n] @ [4 + n]" by (rule upt_Suc_append) simp
  then show ?thesis by (simp only: add_Suc_right map_append list.map)
qed

text \<open>
  What every sequence of events keeps true of a new component: the counter is 3 plus the
  number of clicks; the requests sent, followed by the requests that wait for \<open>open\<close>,
  carry the numbers from 4 on, one per click; and an open socket has nobody waiting.
\<close>

lemma run_invariant:
  "props_plot_id (run max_args evs (PlotComponent_new pid)) = pid \<and>
   lineID (run max_args evs (PlotComponent_new pid)) = 3 + int (length (filter is_click evs)) \<and>
   line_ids (sent (run max_args evs (PlotComponent_new pid))) @
     map js_String (open_listeners (run max_args evs (PlotComponent_new pid))) =
       map (\<lambda>k. js_String (int k)) [4..<4 + length (filter is_click evs)] \<and>
   (readyState (run max_args evs (PlotComponent_new pid)) = OPEN \<longrightarrow>
      open_listeners (run max_args evs (PlotComponent_new pid)) = [])"
proof (induction evs rule: rev_induct)
  case Nil
  show ?case by (simp add: run_def PlotComponent_new_def line_ids_def)
next
  case (snoc e evs)
  define s where "s = run max_args evs (PlotComponent_new pid)"
  define n where "n = length (filter is_click evs)"
  have ih: "props_plot_id s = pid" "lineID s = 3 + int n"
    "line_ids (sent s) @ map js_String (open_listeners s) =
       map (\<lambda>k. js_String (int k)) [4..<4 + n]"
    "readyState s = OPEN \<Longrightarrow> open_listeners s = []"
    using snoc.IH unfolding s_def n_def by simp_all
  have r: "run max_args (evs @ [e]) (PlotComponent_new pid) = step max_args s e"
    by (simp add: run_snoc s_def)
  show ?case
  proof (cases e)
    case SocketOpen
    have c: "length (filter is_click (evs @ [e])) = n" using SocketOpen n_def by simp
    show ?thesis
    proof (cases "readyState s = CONNECTING")
      case True
      have "line_ids (sent (socket_open s)) = line_ids (sent s) @ map js_String (open_listeners s)"
        by (simp add: socket_open_eq line_ids_append
            line_ids_append[of "[ready_status s]", simplified] line_ids_ready
            line_ids_new_line[of s "\<lambda>k. k", simplified])
      then show ?thesis
        unfolding r c using ih True SocketOpen by (simp add: socket_open_eq)
    next
      case False
      then show ?thesis unfolding r c using ih SocketOpen by simp
    qed
  next
    case SocketError
    have c: "length (filter is_click (evs @ [e])) = n" using SocketError n_def by simp
    show ?thesis unfolding r c using ih SocketError by simp
  next
    case SocketClosing
    have c: "length (filter is_click (evs @ [e])) = n" using SocketClosing n_def by simp
    show ?thesis
    proof (cases "readyState s = OPEN")
      case True
      then have "step max_args s e = s\<lparr>readyState := CLOSING\<rparr>" using SocketClosing by simp
      then show ?thesis unfolding r c using ih(1,2,3) by simp
    next
      case False
      then have "step max_args s e = s" using SocketClosing by simp
      then show ?thesis unfolding r c using ih(1,2,3) False by simp
    qed
  next
    case SocketClosed
    have c: "length (filter is_click (evs @ [e])) = n" using SocketClosed n_def by simp
    have "step max_args s e = s\<lparr>readyState := CLOSED\<rparr>" using SocketClosed by simp
    then show ?thesis unfolding r c using ih(1,2,3) by simp
  next
    case (Message m)
    have c: "length (filter is_click (evs @ [e])) = n" using Message n_def by simp
    show ?thesis
    proof (cases "readyState s = OPEN")
      case True
      obtain acks where a: "set acks \<subseteq> {ready_status s}"
        "socket_part (snd (onmessage max_args m s)) =
          (props_plot_id s, readyState s, sent s @ acks, open_listeners s, lineID s)"
        using onmessage_socket[OF True] by blast
      have "line_ids (sent (snd (onmessage max_args m s))) = line_ids (sent s)"
        using a by (simp add: socket_part_def line_ids_append line_ids_acks)
      then show ?thesis
        unfolding r c using ih True Message a(2) by (simp add: socket_part_def)
    next
      case False
      then show ?thesis unfolding r c using ih Message by simp
    qed
  next
    case AddLineClick
    have c: "length (filter is_click (evs @ [e])) = Suc n" using AddLineClick n_def by simp
    show ?thesis
    proof (cases "readyState s = OPEN")
      case True
      have w: "open_listeners s = []" using ih(4)[OF True] .
      show ?thesis
        unfolding r c ids_snoc
        using ih(1,2,3) w True AddLineClick
        by (simp add: handleAddLine_open[OF True] line_ids_append line_ids_single)
    next
      case False
      show ?thesis
        unfolding r c ids_snoc
        using ih(1,2,3) False AddLineClick
        by (simp add: handleAddLine_not_open[OF False])
    qed
  qed
qed

text \<open>Once the socket is closing or closed it stays so, and nothing more is sent.\<close>

lemma step_after_close:
  assumes "readyState s = CLOSING \<or> readyState s = CLOSED"
  shows "(readyState (step max_args s e) = CLOSING \<or> readyState (step max_args s e) = CLOSED) \<and>
    sent (step max_args s e) = sent s"
  using assms by (cases e) (auto simp: handleAddLine_not_open)

lemma run_after_close:
  "readyState s = CLOSING \<or> readyState s = CLOSED \<Longrightarrow>
   (readyState (run max_args evs s) = CLOSING \<or> readyState (run max_args evs s) = CLOSED) \<and>
   sent (run max_args evs s) = sent s"
proof (induction evs rule: rev_induct)
  case Nil
  then show ?case by (simp add: run_def)
next
  case (snoc e evs)
  from snoc.IH[OF snoc.prems] step_after_close[of "run max_args evs s" max_args e]
  show ?case by (simp add: run_snoc)
qed

text \<open>
  C10, as amended. The counter starts at 3. Each activation of the add-line action
  increments the counter and issues exactly one add-line request, whose \<open>line_id\<close> is the
  decimal string of the incremented counter: on an open socket the request is sent at
  once; on any other socket it waits for the socket to open, and nothing is sent. Over
  any sequence of events of a new component, the requests sent, followed by the requests
  still waiting, carry the \<open>line_id\<close>s "4", "5", ... , one per activation and in order;
  while the socket is open none is waiting, so all of them have been sent; and once the
  socket is closing or closed nothing is sent any more.
\<close>

theorem add_line_requests_count_from_four:
  "lineID (PlotComponent_new pid) = 3 \<and>
   (readyState s = OPEN \<longrightarrow>
      handleAddLine s =
        s\<lparr>lineID := lineID s + 1,
          sent := sent s @
            [\<lparr>plot_id = props_plot_id s, msg_type = 1,
              params = NewLineParams (js_String (lineID s + 1))\<rparr>]\<rparr>) \<and>
   (readyState s \<noteq> OPEN \<longrightarrow>
      handleAddLine s =
        s\<lparr>lineID := lineID s + 1, open_listeners := open_listeners s @ [lineID s + 1]\<rparr>) \<and>
   line_ids (sent (run max_args evs (PlotComponent_new pid))) @
     map js_String (open_listeners (run max_args evs (PlotComponent_new pid))) =
       map (\<lambda>k. js_String (int k)) [4..<4 + length (filter is_click evs)] \<and>
   (readyState (run max_args evs (PlotComponent_new pid)) = OPEN \<longrightarrow>
      open_listeners (run max_args evs (PlotComponent_new pid)) = [] \<and>
      line_ids (sent (run max_args evs (PlotComponent_new pid))) =
        map (\<lambda>k. js_String (int k)) [4..<4 + length (filter is_click evs)]) \<and>
   (readyState s = CLOSING \<or> readyState s = CLOSED \<longrightarrow>
      sent (run max_args evs s) = sent s)"
proof -
  have a: "lineID (PlotComponent_new pid) = 3" by (simp add: PlotComponent_new_def)
  have b: "readyState s = OPEN \<longrightarrow>
      handleAddLine s =
        s\<lparr>lineID := lineID s + 1,
          sent := sent s @
            [\<lparr>plot_id = props_plot_id s, msg_type = 1,
              params = NewLineParams (js_String (lineID s + 1))\<rparr>]\<rparr>"
    using handleAddLine_open[of s] by (simp add: new_line_message_def)
  have c: "readyState s \<noteq> OPEN \<longrightarrow>
      handleAddLine s =
        s\<lparr>lineID := lineID s + 1, open_listeners := open_listeners s @ [lineID s + 1]\<rparr>"
    using handleAddLine_not_open[of s] by simp
  have d: "line_ids (sent (run max_args evs (PlotComponent_new pid))) @
     map js_String (open_listeners (run max_args evs (PlotComponent_new pid))) =
       map (\<lambda>k. js_String (int k)) [4..<4 + length (filter is_click evs)]"
    using run_invariant[of max_args evs pid] by blast
  have e: "readyState (run max_args evs (PlotComponent_new pid)) = OPEN \<longrightarrow>
      open_listeners (run max_args evs (PlotComponent_new pid)) = [] \<and>
      line_ids (sent (run max_args evs (PlotComponent_new pid))) =
        map (\<lambda>k. js_String (int k)) [4..<4 + length (filter is_click evs)]"
    using run_invariant[of max_args evs pid] by auto
  have f: "readyState s = CLOSING \<or> readyState s = CLOSED \<longrightarrow>
      sent (run max_args evs s) = sent s"
    using run_after_close[of s max_args evs] by blast
  show ?thesis using a b c d e f by blast
qed

text \<open>
  One click on \<open>connected\<close> sends the request for line "4", and one click on a new
  component, whose socket is connecting, leaves the request for line 4 waiting. A click
  before the socket opens and two clicks after it send the requests for "4", "5" and
  "6". After the socket has closed, a click and a late \<open>open\<close> send nothing.
\<close>

theorem add_line_requests_count_from_four_witness:
  "readyState connected = OPEN \<and>
   sent (handleAddLine connected) =
     [\<lparr>plot_id = ''plot_0'', msg_type = 0, params = StatusParams ''ready''\<rparr>,
      \<lparr>plot_id = ''plot_0'', msg_type = 1, params = NewLineParams ''4''\<rparr>] \<and>
   readyState (PlotComponent_new ''plot_0'') \<noteq> OPEN \<and>
   open_listeners (handleAddLine (PlotComponent_new ''plot_0'')) = [4] \<and>
   sent (handleAddLine (PlotComponent_new ''plot_0'')) = [] \<and>
   readyState (run engine_limit [AddLineClick, SocketOpen, AddLineClick, AddLineClick]
                 (PlotComponent_new ''plot_0'')) = OPEN \<and>
   line_ids (sent (run engine_limit [AddLineClick, SocketOpen, AddLineClick, AddLineClick]
                     (PlotComponent_new ''plot_0''))) = [''4'', ''5'', ''6''] \<and>
   readyState (connected\<lparr>readyState := CLOSED\<rparr>) = CLOSED \<and>
   sent (run engine_limit [AddLineClick, SocketOpen] (connected\<lparr>readyState := CLOSED\<rparr>)) =
     [\<lparr>plot_id = ''plot_0'', msg_type = 0, params = StatusParams ''ready''\<rparr>]"
proof -
  let ?new = "PlotComponent_new ''plot_0''"
  let ?evs = "[AddLineClick, SocketOpen, AddLineClick, AddLineClick]"
  let ?closed = "connected\<lparr>readyState := CLOSED\<rparr>"
  have o: "readyState connected = OPEN" by (simp add: connected_eq)
  have n: "readyState ?new \<noteq> OPEN" by (simp add: PlotComponent_new_def)
  have q: "readyState ?closed = CLOSED" by simp
  have g: "readyState (run engine_limit ?evs ?new) = OPEN"
    by (simp add: run_def PlotComponent_new_def handleAddLine_not_open handleAddLine_open
        socket_open_eq)
  have j: "map (\<lambda>k. js_String (int k)) [4..<4 + length (filter is_click ?evs)] =
      [''4'', ''5'', ''6'']"
    by (simp add: js_String_def upt_rec)
  have k: "js_String (lineID connected + 1) = ''4''"
    by (simp add: connected_eq js_String_def)
  note t1 = add_line_requests_count_from_four[of "''plot_0''" connected engine_limit ?evs]
  note t2 = add_line_requests_count_from_four[of "''plot_0''" ?new engine_limit ?evs]
  note t3 = add_line_requests_count_from_four[of "''plot_0''" ?closed engine_limit
      "[AddLineClick, SocketOpen]"]
  have a: "handleAddLine connected =
      connected\<lparr>lineID := lineID connected + 1,
        sent := sent connected @
          [\<lparr>plot_id = props_plot_id connected, msg_type = 1,
            params = NewLineParams (js_String (lineID connected + 1))\<rparr>]\<rparr>"
    using t1 o by blast
  have b: "line_ids (sent (run engine_limit ?evs ?new)) =
        map (\<lambda>k. js_String (int k)) [4..<4 + length (filter is_click ?evs)]"
    using t1 g by blast
  have c: "handleAddLine ?new =
      ?new\<lparr>lineID := lineID ?new + 1, open_listeners := open_listeners ?new @ [lineID ?new + 1]\<rparr>"
    using t2 n by blast
  have d: "sent (run engine_limit [AddLineClick, SocketOpen] ?closed) = sent ?closed"
    using t3 q by blast
  have a': "sent (handleAddLine connected) =
     [\<lparr>plot_id = ''plot_0'', msg_type = 0, params = StatusParams ''ready''\<rparr>,
      \<lparr>plot_id = ''plot_0'', msg_type = 1, params = NewLineParams ''4''\<rparr>]"
    unfolding a k by (simp add: connected_eq)
  have c': "open_listeners (handleAddLine ?new) = [4] \<and> sent (handleAddLine ?new) = []"
    unfolding c by (simp add: PlotComponent_new_def)
  have d': "sent (run engine_limit [AddLineClick, SocketOpen] ?closed) =
     [\<lparr>plot_id = ''plot_0'', msg_type = 0, params = StatusParams ''ready''\<rparr>]"
    unfolding d by (simp add: connected_eq)
  show ?thesis using o n q g a' b c' d' j by simp
qed

text \<open>
  C10 as stated fails when the socket is not open. A component whose connection attempt
  has failed has a closed socket: an activation raises the counter to 4 and adds a
  listener for \<open>open\<close>, but no request is sent, then or later. On a socket that closed
  after opening, the only message sent is the initial status.
\<close>

theorem click_on_closed_socket_counterexample:
  "readyState (run engine_limit [SocketError, SocketClosed] (PlotComponent_new ''plot_0'')) =
     CLOSED \<and>
   lineID (run engine_limit [SocketError, SocketClosed, AddLineClick]
             (PlotComponent_new ''plot_0'')) = 4 \<and>
   open_listeners (run engine_limit [SocketError, SocketClosed, AddLineClick]
                     (PlotComponent_new ''plot_0'')) = [4] \<and>
   sent (run engine_limit [SocketError, SocketClosed, AddLineClick]
           (PlotComponent_new ''plot_0'')) = [] \<and>
   sent (run engine_limit [SocketError, SocketClosed, AddLineClick, SocketOpen]
           (PlotComponent_new ''plot_0'')) = [] \<and>
   sent (run engine_limit [SocketOpen, SocketClosing, SocketClosed, AddLineClick]
           (PlotComponent_new ''plot_0'')) =
     [\<lparr>plot_id = ''plot_0'', msg_type = 0, params = StatusParams ''ready''\<rparr>]"
  by (simp add: run_def PlotComponent_new_def handleAddLine_not_open socket_open_eq
      ready_status_def)

section \<open>Properties of the selection component\<close>

text \<open>
  C7. \<open>isFlipped\<close> transforms the data points \<open>(0,0)\<close> and \<open>(1,1)\<close>, whose difference is
  positive on both axes, and marks each axis on its own: the x axis is flipped exactly
  when the x difference of the two screen points is negative, that is, exactly when its
  sign is opposite to that of the data difference, and likewise the y axis.
\<close>

theorem isFlipped_iff_screen_delta_negative:
  "0 < vx (Vector3_new 1 1) - vx (Vector3_new 0 0) \<and>
   0 < vy (Vector3_new 1 1) - vy (Vector3_new 0 0) \<and>
   fst (isFlipped dataToHtml camera) =
     (vx (dataToHtml camera (Vector3_new 1 1)) - vx (dataToHtml camera (Vector3_new 0 0)) < 0) \<and>
   snd (isFlipped dataToHtml camera) =
     (vy (dataToHtml camera (Vector3_new 1 1)) - vy (dataToHtml camera (Vector3_new 0 0)) < 0) \<and>
   fst (isFlipped dataToHtml camera) =
     ((vx (dataToHtml camera (Vector3_new 1 1)) - vx (dataToHtml camera (Vector3_new 0 0))) *
      (vx (Vector3_new 1 1) - vx (Vector3_new 0 0)) < 0) \<and>
   snd (isFlipped dataToHtml camera) =
     ((vy (dataToHtml camera (Vector3_new 1 1)) - vy (dataToHtml camera (Vector3_new 0 0))) *
      (vy (Vector3_new 1 1) - vy (Vector3_new 0 0)) < 0)"
  by (simp add: isFlipped_def Let_def sub_def Vector3_new_def)



end
